theory Spec2Isabelle
  imports Main "HOL-Library.Char_ord" "HOL-Library.List_Lexorder"
begin

section \<open>Data model\<close>

text \<open>
  The shared state of \<^verbatim>\<open>i.py\<close> is a JSON document: a dictionary of users, a list of
  presentation dictionaries and a list of activity dictionaries. A key that the program
  reads with \<^verbatim>\<open>d['k']\<close> is a field; a key that it reads with \<^verbatim>\<open>d.get('k', default)\<close>
  is an optional field. Python dictionaries keep insertion order, so the users dictionary
  is an association list. Strings are compared as Python compares them, lexicographically.
\<close>

record user_data =
  password :: string
  role :: "string option"
  last_login :: "string option"

record slide =
  title :: "string option"
  presentation_id :: string
  presentation_link :: "string option"
  description :: "string option"
  uploader :: string
  upload_date :: "string option"
  slide_count :: "int option"
  last_modified :: "string option"
  status :: "string option"

record activity =
  timestamp :: string
  user :: string
  action :: string
  details :: string

record shared_state =
  users :: "(string \<times> user_data) list"
  slides :: "slide list"
  activities :: "activity list"
  other_keys :: "(string \<times> string) list"

text \<open>
  The program reads only the three keys \<open>users\<close>, \<open>slides\<close> and \<open>activities\<close>. Any other
  top-level key of the document is carried along as it is, under \<open>other_keys\<close>, with the
  JSON text of its value.

  The document that \<^verbatim>\<open>json.load\<close> returns: a dictionary in which each of the three
  top-level keys may be missing, and which may hold other keys.
\<close>

record file_data =
  f_users :: "(string \<times> user_data) list option"
  f_slides :: "slide list option"
  f_activities :: "activity list option"
  f_other_keys :: "(string \<times> string) list"

text \<open>The backing file \<^verbatim>\<open>shared_slides_db.json\<close> as the program can find it.\<close>

datatype db_content =
    Absent
  | Unreadable
  | Malformed
  | Parsed file_data

datatype exn = OSError | JSONDecodeError

text \<open>
  The process state that the functions read and write: the session copy of the shared
  state, the backing file, whether the file can be opened for writing, and the clock that
  \<^verbatim>\<open>datetime.now()\<close> reads (one reading per call, \<open>ticks\<close> counts the readings).
\<close>

record world =
  shared_data :: shared_state
  db :: db_content
  writable :: bool
  clock :: "nat \<Rightarrow> string"
  ticks :: nat

section \<open>PersistentStore\<close>

definition path_exists :: "db_content \<Rightarrow> bool" where
  "path_exists f = (f \<noteq> Absent)"

text \<open>\<^verbatim>\<open>with open(SHARED_DB_FILE, 'r') as f: json.load(f)\<close>, with what it raises.\<close>

fun open_and_load :: "db_content \<Rightarrow> exn + file_data" where
  "open_and_load Absent = Inl OSError"
| "open_and_load Unreadable = Inl OSError"
| "open_and_load Malformed = Inl JSONDecodeError"
| "open_and_load (Parsed data) = Inr data"

text \<open>The hash \<^verbatim>\<open>hashlib.sha256(p.encode()).hexdigest()\<close> is the parameter \<open>H\<close>.\<close>

definition default_users :: "(string \<Rightarrow> string) \<Rightarrow> (string \<times> user_data) list" where
  "default_users H =
     [(''admin'', \<lparr>password = H ''admin123'', role = Some ''admin'', last_login = None\<rparr>)]"

definition initialize_shared_state :: "(string \<Rightarrow> string) \<Rightarrow> db_content \<Rightarrow> shared_state" where
  "initialize_shared_state H f =
     (let fallback = \<lparr>users = default_users H, slides = [], activities = [], other_keys = []\<rparr>
      in if path_exists f then
           (case open_and_load f of
              Inr data \<Rightarrow>
                \<lparr>users = (case f_users data of None \<Rightarrow> default_users H | Some us \<Rightarrow> us),
                 slides = (case f_slides data of None \<Rightarrow> [] | Some ss \<Rightarrow> ss),
                 activities = (case f_activities data of None \<Rightarrow> [] | Some as \<Rightarrow> as),
                 other_keys = f_other_keys data\<rparr>
            | Inl e \<Rightarrow> fallback)
         else fallback)"

text \<open>
  \<^verbatim>\<open>json.dump(st.session_state.shared_data, f)\<close>: the session copy has all three keys,
  and the other keys that it was loaded with.
\<close>

definition dump :: "shared_state \<Rightarrow> file_data" where
  "dump sd = \<lparr>f_users = Some (users sd), f_slides = Some (slides sd),
              f_activities = Some (activities sd), f_other_keys = other_keys sd\<rparr>"

definition save_shared_state :: "world \<Rightarrow> world" where
  "save_shared_state w =
     (if writable w then w\<lparr>db := Parsed (dump (shared_data w))\<rparr> else w)"

definition load_shared_state :: "db_content \<Rightarrow> file_data option" where
  "load_shared_state f =
     (if path_exists f then
        (case open_and_load f of Inr data \<Rightarrow> Some data | Inl e \<Rightarrow> None)
      else None)"

section \<open>StateMerger\<close>

text \<open>Python's \<^verbatim>\<open>k in d\<close> and \<^verbatim>\<open>d[k] = v\<close> on an insertion-ordered dictionary.\<close>

definition dict_contains :: "('k \<times> 'v) list \<Rightarrow> 'k \<Rightarrow> bool" where
  "dict_contains d k = (k \<in> fst ` set d)"

fun dict_set :: "('k \<times> 'v) list \<Rightarrow> 'k \<Rightarrow> 'v \<Rightarrow> ('k \<times> 'v) list" where
  "dict_set [] k v = [(k, v)]"
| "dict_set ((k', v') # d) k v =
     (if k' = k then (k, v) # d else (k', v') # dict_set d k v)"

text \<open>
  \<^verbatim>\<open>not file_data\<close>: \<^verbatim>\<open>None\<close> and the empty dictionary are falsy; a dictionary with any
  key, also one that the program does not read, is not.
\<close>

definition falsy :: "file_data option \<Rightarrow> bool" where
  "falsy fd =
     (case fd of
        None \<Rightarrow> True
      | Some d \<Rightarrow>
          f_users d = None \<and> f_slides d = None \<and> f_activities d = None
          \<and> f_other_keys d = [])"

definition merge_users ::
  "(string \<times> user_data) list \<Rightarrow> (string \<times> user_data) list \<Rightarrow> (string \<times> user_data) list" where
  "merge_users file_users session_users =
     fold (\<lambda>(username, ud) us.
             if \<not> dict_contains us username then dict_set us username ud else us)
          file_users session_users"

text \<open>\<^verbatim>\<open>slide.get('last_modified', '')\<close>\<close>

definition get_last_modified :: "slide \<Rightarrow> string" where
  "get_last_modified s = (case last_modified s of None \<Rightarrow> [] | Some t \<Rightarrow> t)"

text \<open>
  The inner loop of the slide merge: the first session slide with the file slide's id is
  replaced when the file slide's timestamp is greater, and the loop breaks there.
\<close>

fun update_existing :: "slide \<Rightarrow> slide list \<Rightarrow> slide list" where
  "update_existing file_slide [] = []"
| "update_existing file_slide (session_slide # rest) =
     (if presentation_id session_slide = presentation_id file_slide then
        (if get_last_modified file_slide > get_last_modified session_slide
         then file_slide # rest else session_slide # rest)
      else session_slide # update_existing file_slide rest)"

text \<open>\<open>current_slide_ids\<close> is computed once, before the loop over the file's slides.\<close>

definition merge_slides :: "slide list \<Rightarrow> slide list \<Rightarrow> slide list" where
  "merge_slides file_slides session_slides =
     (let current_slide_ids = set (map presentation_id session_slides)
      in fold (\<lambda>file_slide ss.
                 if presentation_id file_slide \<notin> current_slide_ids then ss @ [file_slide]
                 else update_existing file_slide ss)
              file_slides session_slides)"

definition merge_activities :: "activity list \<Rightarrow> activity list \<Rightarrow> activity list" where
  "merge_activities file_acts session_acts =
     fold (\<lambda>file_act acts. if file_act \<notin> set acts then acts @ [file_act] else acts)
          file_acts session_acts"

definition merge_shared_state :: "world \<Rightarrow> world" where
  "merge_shared_state w =
     (let file_data = load_shared_state (db w)
      in if falsy file_data then w
         else
           (case file_data of
              None \<Rightarrow> w
            | Some fd \<Rightarrow>
                (let sd = shared_data w;
                     sd1 = (case f_users fd of
                              None \<Rightarrow> sd
                            | Some us \<Rightarrow> sd\<lparr>users := merge_users us (users sd)\<rparr>);
                     sd2 = (case f_slides fd of
                              None \<Rightarrow> sd1
                            | Some ss \<Rightarrow> sd1\<lparr>slides := merge_slides ss (slides sd1)\<rparr>);
                     sd3 = (case f_activities fd of
                              None \<Rightarrow> sd2
                            | Some as \<Rightarrow>
                                sd2\<lparr>activities := merge_activities as (activities sd2)\<rparr>)
                 in save_shared_state (w\<lparr>shared_data := sd3\<rparr>))))"

text \<open>
  \<^verbatim>\<open>refresh_shared_state\<close> wraps the merge in \<^verbatim>\<open>try\<close>; the merge raises nothing on
  documents of this shape, so the refresh returns \<^verbatim>\<open>True\<close>.
\<close>

definition refresh_shared_state :: "world \<Rightarrow> world \<times> bool" where
  "refresh_shared_state w = (merge_shared_state w, True)"

text \<open>The slides of the on-disk state: none when the file gives no document or no key.\<close>

definition on_disk_slides :: "db_content \<Rightarrow> slide list" where
  "on_disk_slides f =
     (case load_shared_state f of
        None \<Rightarrow> []
      | Some d \<Rightarrow> (case f_slides d of None \<Rightarrow> [] | Some ss \<Rightarrow> ss))"

section \<open>Registry\<close>

text \<open>\<^verbatim>\<open>datetime.now().strftime("%Y-%m-%d %H:%M:%S")\<close>: one reading of the clock.\<close>

definition now :: "world \<Rightarrow> string \<times> world" where
  "now w = (clock w (ticks w), w\<lparr>ticks := Suc (ticks w)\<rparr>)"

definition log_activity :: "string \<Rightarrow> string \<Rightarrow> string \<Rightarrow> world \<Rightarrow> world" where
  "log_activity act usr det w =
     (let (t, w1) = now w;
          activity = \<lparr>timestamp = t, user = usr, action = act, details = det\<rparr>;
          sd = shared_data w1
      in save_shared_state (w1\<lparr>shared_data := sd\<lparr>activities := activities sd @ [activity]\<rparr>\<rparr>))"

text \<open>What a handler shows: \<^verbatim>\<open>st.error\<close>, \<^verbatim>\<open>st.warning\<close> or \<^verbatim>\<open>st.success\<close> with its text.\<close>

datatype ui_message = Error string | Warning string | Success string

text \<open>The three failures of the Register tab, under the names of the error taxonomy.\<close>

definition DuplicateUser :: ui_message where
  "DuplicateUser = Error ''Username already exists''"

definition PasswordMismatch :: ui_message where
  "PasswordMismatch = Error ''Passwords don't match''"

definition WeakPassword :: ui_message where
  "WeakPassword = Error ''Password must be at least 6 characters''"

text \<open>The Register button of the sidebar.\<close>

definition register_handler ::
  "(string \<Rightarrow> string) \<Rightarrow> string \<Rightarrow> string \<Rightarrow> string \<Rightarrow> world \<Rightarrow> world \<times> ui_message" where
  "register_handler H reg_username reg_password reg_password_confirm w =
     (if dict_contains (users (shared_data w)) reg_username then (w, DuplicateUser)
      else if reg_password \<noteq> reg_password_confirm then (w, PasswordMismatch)
      else if length reg_password < 6 then (w, WeakPassword)
      else
        (let sd = shared_data w;
             w1 = w\<lparr>shared_data := sd\<lparr>users := dict_set (users sd) reg_username
                     \<lparr>password = H reg_password, role = Some ''member'', last_login = None\<rparr>\<rparr>\<rparr>;
             w2 = save_shared_state w1;
             w3 = log_activity ''REGISTER'' reg_username ''New user registered'' w2
         in (w3, Success ''Registration successful! Please login.'')))"

text \<open>Python's \<^verbatim>\<open>str\<close> of an integer, for the f-strings of the activity log.\<close>

fun str_nat :: "nat \<Rightarrow> string" where
  "str_nat n =
     (if n < 10 then [''0123456789'' ! n]
      else str_nat (n div 10) @ [''0123456789'' ! (n mod 10)])"

declare str_nat.simps [simp del]

definition str_int :: "int \<Rightarrow> string" where
  "str_int i = (if i < 0 then CHR ''-'' # str_nat (nat (- i)) else str_nat (nat i))"

text \<open>
  What \<^verbatim>\<open>get_presentation_details\<close> returns for a presentation id: the title and the
  slide count, or \<^verbatim>\<open>None\<close> when the remote call fails. A slides service is that function.
\<close>

record presentation_details =
  d_title :: string
  d_slide_count :: int

type_synonym slides_service = "string \<Rightarrow> presentation_details option"

text \<open>\<^verbatim>\<open>slide.get('slide_count', 0)\<close> and \<^verbatim>\<open>slide.get('title', 'Untitled')\<close>\<close>

definition get_slide_count :: "slide \<Rightarrow> int" where
  "get_slide_count s = (case slide_count s of None \<Rightarrow> 0 | Some c \<Rightarrow> c)"


text \<open>
  One round of the loop of \<^verbatim>\<open>check_for_updates\<close>, at index \<open>idx\<close>. The record is changed
  in place, so the log line reads the new title.
\<close>

definition check_one :: "slides_service \<Rightarrow> nat \<Rightarrow> world \<times> bool \<Rightarrow> world \<times> bool" where
  "check_one svc idx st =
     (let (w, updates_found) = st;
          slide = slides (shared_data w) ! idx
      in case svc (presentation_id slide) of
           None \<Rightarrow> (w, updates_found)
         | Some fetched \<Rightarrow>
             (let current_count = get_slide_count slide
              in if d_slide_count fetched \<noteq> current_count then
                   (let (t, w1) = now w;
                        slide' = slide\<lparr>slide_count := Some (d_slide_count fetched),
                                       last_modified := Some t,
                                       title := Some (d_title fetched)\<rparr>;
                        sd = shared_data w1;
                        w2 = w1\<lparr>shared_data := sd\<lparr>slides := (slides sd)[idx := slide']\<rparr>\<rparr>;
                        w3 = log_activity ''SLIDE_UPDATE'' (uploader slide')
                               (''Updated '' @ [CHR 0x27] @ d_title fetched @ [CHR 0x27]
                                 @ '' from '' @ str_int current_count @ '' to ''
                                 @ str_int (d_slide_count fetched) @ '' slides'') w2
                    in (w3, True))
                 else (w, updates_found)))"

text \<open>
  \<^verbatim>\<open>check_for_updates\<close>: nothing without a service; otherwise the refresh, the loop over
  the indices of the slides list, and a last save when something was updated.
\<close>

definition check_for_updates :: "slides_service option \<Rightarrow> world \<Rightarrow> world \<times> bool" where
  "check_for_updates slides_service w =
     (case slides_service of
        None \<Rightarrow> (w, False)
      | Some svc \<Rightarrow>
          (let (w1, ok) = refresh_shared_state w;
               n = length (slides (shared_data w1));
               (w2, updates_found) = fold (check_one svc) [0..<n] (w1, False)
           in (if updates_found then save_shared_state w2 else w2, updates_found)))"

text \<open>
  The records that the update check has to change: the fetch succeeds and the fetched
  slide count differs from the stored one. The fetch fails when the service gives nothing.
\<close>

definition needs_update :: "slides_service \<Rightarrow> slide \<Rightarrow> bool" where
  "needs_update svc s =
     (case svc (presentation_id s) of
        None \<Rightarrow> False
      | Some fetched \<Rightarrow> d_slide_count fetched \<noteq> get_slide_count s)"

definition fetch_fails :: "slides_service \<Rightarrow> slide \<Rightarrow> bool" where
  "fetch_fails svc s = (svc (presentation_id s) = None)"

section \<open>Removing a presentation\<close>




text \<open>The list without its first record of the given id, if there is one.\<close>

fun pop_matching :: "string \<Rightarrow> slide list \<Rightarrow> slide list option" where
  "pop_matching pid [] = None"
| "pop_matching pid (s # rest) =
     (if presentation_id s = pid then Some rest
      else (case pop_matching pid rest of None \<Rightarrow> None | Some rest' \<Rightarrow> Some (s # rest')))"





section \<open>ReportBuilder\<close>

text \<open>
  Python's \<^verbatim>\<open>sum(...)\<close> adds from 0, left to right; \<^verbatim>\<open>set(...)\<close> inserts one element after
  the other. \<^verbatim>\<open>list(set(...))\<close> has no order that the program fixes, so the uploaders stay
  a set, and \<^verbatim>\<open>len\<close> of the list is the set's cardinality.
\<close>

definition py_sum :: "int list \<Rightarrow> int" where
  "py_sum xs = fold (\<lambda>x acc. acc + x) xs 0"

definition py_set :: "'a list \<Rightarrow> 'a set" where
  "py_set xs = fold insert xs {}"

text \<open>
  The statistics of the three builders: \<open>all_uploaders\<close> and \<open>total_slides\<close> as each
  builder computes them (lines 402-403, 544-545 and 607-608).
\<close>

definition image_pdf_statistics :: "slide list \<Rightarrow> string set \<times> int" where
  "image_pdf_statistics slides_list =
     (let all_uploaders = py_set (map uploader slides_list);
          total_slides = py_sum (map get_slide_count slides_list)
      in (all_uploaders, total_slides))"

definition simple_pdf_statistics :: "slide list \<Rightarrow> string set \<times> int" where
  "simple_pdf_statistics slides_list =
     (let all_uploaders = py_set (map uploader slides_list);
          total_slides = py_sum (map get_slide_count slides_list)
      in (all_uploaders, total_slides))"

definition html_statistics :: "slide list \<Rightarrow> string set \<times> int" where
  "html_statistics slides_list =
     (let all_uploaders = py_set (map uploader slides_list);
          total_slides = py_sum (map get_slide_count slides_list)
      in (all_uploaders, total_slides))"



text \<open>
  The two PDF builders and the file system. \<open>files\<close> is the set of paths that exist;
  \<open>temp_pdf_path\<close> is the name that \<^verbatim>\<open>tempfile.NamedTemporaryFile(delete=False)\<close> hands
  out. Each builder computes its statistics for the first page. Composing the pages from
  the statistics and the list, building the document and reading the file back is the
  work of the document library: \<open>doc_build\<close> and \<open>canvas_save\<close> give the bytes, or \<open>None\<close>
  when one of these steps raises. An exception ends in the \<^verbatim>\<open>except\<close> branch, which reports
  the error and returns \<^verbatim>\<open>None\<close>; \<^verbatim>\<open>os.unlink\<close> stands only behind the successful read.
\<close>

definition create_image_combined_pdf ::
  "string option \<Rightarrow> bool \<Rightarrow> (string set \<times> int \<Rightarrow> slide list \<Rightarrow> string option) \<Rightarrow> string
     \<Rightarrow> slide list \<Rightarrow> string set \<Rightarrow> string option \<times> string set" where
  "create_image_combined_pdf google_creds services_available doc_build temp_pdf_path
       slides_list files =
     (case google_creds of
        None \<Rightarrow> (None, files)
      | Some access_token \<Rightarrow>
          (let files1 = insert temp_pdf_path files;
               statistics = image_pdf_statistics slides_list
           in if \<not> services_available then (None, files1)
              else
                (case doc_build statistics slides_list of
                   None \<Rightarrow> (None, files1)
                 | Some pdf_bytes \<Rightarrow> (Some pdf_bytes, files1 - {temp_pdf_path}))))"

definition create_simple_combined_pdf ::
  "(string set \<times> int \<Rightarrow> slide list \<Rightarrow> string option) \<Rightarrow> string \<Rightarrow> slide list
     \<Rightarrow> string set \<Rightarrow> string option \<times> string set" where
  "create_simple_combined_pdf canvas_save temp_pdf_path slides_list files =
     (let files1 = insert temp_pdf_path files;
          statistics = simple_pdf_statistics slides_list
      in case canvas_save statistics slides_list of
           None \<Rightarrow> (None, files1)
         | Some pdf_bytes \<Rightarrow> (Some pdf_bytes, files1 - {temp_pdf_path}))"

text \<open>
  The HTML report: nothing without credentials; otherwise the page that the f-strings
  make of the statistics and the list (\<open>html_content\<close>), encoded.
\<close>

definition create_html_image_view ::
  "string option \<Rightarrow> (string set \<times> int \<Rightarrow> slide list \<Rightarrow> string) \<Rightarrow> slide list
     \<Rightarrow> string option" where
  "create_html_image_view google_creds html_content slides_list =
     (case google_creds of
        None \<Rightarrow> None
      | Some access_token \<Rightarrow> Some (html_content (html_statistics slides_list) slides_list))"

section \<open>Concrete states\<close>

text \<open>
  The example of the specification: presentation A with five slides in the session and
  with seven slides, modified a day later, on disk.
\<close>

definition slide_A_session :: slide where
  "slide_A_session =
     \<lparr>title = Some ''Deck'', presentation_id = ''A'', presentation_link = None,
      description = None, uploader = ''alice'', upload_date = Some ''2024-01-01 10:00:00'',
      slide_count = Some 5, last_modified = Some ''2024-01-01 10:00:00'',
      status = Some ''active''\<rparr>"

definition slide_A_disk :: slide where
  "slide_A_disk =
     slide_A_session\<lparr>slide_count := Some 7, last_modified := Some ''2024-01-02 09:00:00''\<rparr>"

definition slide_B_disk :: slide where
  "slide_B_disk =
     \<lparr>title = Some ''Notes'', presentation_id = ''B'', presentation_link = None,
      description = None, uploader = ''bob'', upload_date = Some ''2024-01-02 08:00:00'',
      slide_count = Some 3, last_modified = Some ''2024-01-02 08:00:00'',
      status = Some ''active''\<rparr>"

definition example_file :: file_data where
  "example_file =
     \<lparr>f_users = None, f_slides = Some [slide_A_disk, slide_B_disk], f_activities = None,
      f_other_keys = []\<rparr>"

definition example_world :: world where
  "example_world =
     \<lparr>shared_data = \<lparr>users = [], slides = [slide_A_session], activities = [],
                     other_keys = []\<rparr>,
      db = Parsed example_file, writable = True,
      clock = (\<lambda>n. ''2024-01-03 12:00:00''), ticks = 0\<rparr>"

text \<open>The same session with no backing file, and a stand-in for the hash function.\<close>

definition absent_world :: world where
  "absent_world = example_world\<lparr>db := Absent\<rparr>"

text \<open>A backing file that holds the document \<^verbatim>\<open>{"version": 1}\<close> and nothing else.\<close>

definition version_world :: world where
  "version_world =
     example_world\<lparr>db := Parsed \<lparr>f_users = None, f_slides = None, f_activities = None,
                                    f_other_keys = [(''version'', ''1'')]\<rparr>\<rparr>"

definition toy_hash :: "string \<Rightarrow> string" where
  "toy_hash p = rev p"

definition admin_world :: world where
  "admin_world =
     example_world\<lparr>shared_data := (shared_data example_world)\<lparr>users := default_users toy_hash\<rparr>\<rparr>"





text \<open>A service that knows presentation A, now with nine slides, and fails on all others.\<close>

definition example_service :: slides_service where
  "example_service pid =
     (if pid = ''A'' then Some \<lparr>d_title = ''Deck v2'', d_slide_count = 9\<rparr> else None)"

section \<open>Bootstrap on load\<close>

text \<open>
  C5. Loading never raises: an absent, unreadable or malformed file gives the bootstrap
  default (the single user admin with role admin, no slides, no activities), and a file
  that parses keeps its keys and gets the default for each top-level key it lacks.
\<close>

theorem initialize_shared_state_total:
  "initialize_shared_state H Absent =
     \<lparr>users = [(''admin'', \<lparr>password = H ''admin123'', role = Some ''admin'', last_login = None\<rparr>)],
      slides = [], activities = [], other_keys = []\<rparr>
   \<and> initialize_shared_state H Unreadable = initialize_shared_state H Absent
   \<and> initialize_shared_state H Malformed = initialize_shared_state H Absent
   \<and> users (initialize_shared_state H (Parsed d)) =
       (case f_users d of None \<Rightarrow> users (initialize_shared_state H Absent) | Some us \<Rightarrow> us)
   \<and> slides (initialize_shared_state H (Parsed d)) =
       (case f_slides d of None \<Rightarrow> [] | Some ss \<Rightarrow> ss)
   \<and> activities (initialize_shared_state H (Parsed d)) =
       (case f_activities d of None \<Rightarrow> [] | Some as \<Rightarrow> as)
   \<and> other_keys (initialize_shared_state H (Parsed d)) = f_other_keys d"
  by (simp add: initialize_shared_state_def path_exists_def default_users_def
      split: option.split)

section \<open>Merging the slides\<close>

lemma update_existing_ids:
  "map presentation_id (update_existing f ss) = map presentation_id ss"
  by (induction ss) auto

lemma update_existing_length: "length (update_existing f ss) = length ss"
  by (induction ss) auto

lemma update_existing_append:
  "presentation_id f \<in> set (map presentation_id cur) \<Longrightarrow>
   update_existing f (cur @ app) = update_existing f cur @ app"
  by (induction cur) auto

lemma update_existing_other:
  "i < length ss \<Longrightarrow> presentation_id (ss ! i) \<noteq> presentation_id f \<Longrightarrow>
   update_existing f ss ! i = ss ! i"
proof (induction ss arbitrary: i)
  case Nil
  then show ?case by simp
next
  case (Cons a ss)
  then show ?case by (cases i) auto
qed

lemma update_existing_hit:
  "distinct (map presentation_id ss) \<Longrightarrow> i < length ss \<Longrightarrow>
   presentation_id (ss ! i) = presentation_id f \<Longrightarrow>
   update_existing f ss ! i =
     (if get_last_modified f > get_last_modified (ss ! i) then f else ss ! i)"
proof (induction ss arbitrary: i)
  case Nil
  then show ?case by simp
next
  case (Cons a ss)
  show ?case
  proof (cases i)
    case 0
    then show ?thesis using Cons.prems by simp
  next
    case (Suc j)
    then have j: "j < length ss" "presentation_id (ss ! j) = presentation_id f"
      using Cons.prems by auto
    have "ss ! j \<in> set ss" using j(1) by simp
    then have "presentation_id f \<in> presentation_id ` set ss" using j(2) by (metis imageI)
    then have "presentation_id a \<noteq> presentation_id f" using Cons.prems(1) by auto
    then show ?thesis using Cons.IH[OF _ j] Cons.prems(1) Suc by simp
  qed
qed

text \<open>
  The loop over the file's slides splits in two: the slides whose id the session knew
  update the session's list, the others are appended behind it in file order.
\<close>

lemma merge_loop_split:
  "set (map presentation_id cur) = ids \<Longrightarrow>
   fold (\<lambda>file_slide ss.
           if presentation_id file_slide \<notin> ids then ss @ [file_slide]
           else update_existing file_slide ss) fs (cur @ app) =
   fold update_existing (filter (\<lambda>f. presentation_id f \<in> ids) fs) cur
     @ app @ filter (\<lambda>f. presentation_id f \<notin> ids) fs"
proof (induction fs arbitrary: cur app)
  case Nil
  then show ?case by simp
next
  case (Cons f fs)
  show ?case
  proof (cases "presentation_id f \<in> ids")
    case True
    then have "update_existing f (cur @ app) = update_existing f cur @ app"
      using Cons.prems update_existing_append by blast
    moreover have "set (map presentation_id (update_existing f cur)) = ids"
      using Cons.prems by (simp only: update_existing_ids)
    ultimately show ?thesis
      using True Cons.IH[of "update_existing f cur" app] by simp
  next
    case False
    then show ?thesis using Cons.IH[of cur "app @ [f]"] Cons.prems by simp
  qed
qed

lemma merge_slides_split:
  "merge_slides fs mem =
   fold update_existing
     (filter (\<lambda>f. presentation_id f \<in> set (map presentation_id mem)) fs) mem
     @ filter (\<lambda>f. presentation_id f \<notin> set (map presentation_id mem)) fs"
  using merge_loop_split[of mem "set (map presentation_id mem)" fs "[]"]
  by (simp add: merge_slides_def)

lemma fold_update_existing_ids:
  "map presentation_id (fold update_existing fs cur) = map presentation_id cur"
  by (induction fs arbitrary: cur) (auto simp: update_existing_ids)

lemma fold_update_existing_length: "length (fold update_existing fs cur) = length cur"
  using fold_update_existing_ids[of fs cur] by (metis length_map)

lemma fold_update_existing_miss:
  "i < length cur \<Longrightarrow> presentation_id (cur ! i) \<notin> presentation_id ` set fs \<Longrightarrow>
   fold update_existing fs cur ! i = cur ! i"
proof (induction fs arbitrary: cur)
  case Nil
  then show ?case by simp
next
  case (Cons f fs)
  have a: "update_existing f cur ! i = cur ! i"
    using Cons.prems by (intro update_existing_other) auto
  have "fold update_existing fs (update_existing f cur) ! i = update_existing f cur ! i"
    using Cons.prems a by (intro Cons.IH) (auto simp: update_existing_length)
  then show ?case using a by simp
qed

lemma fold_update_existing_hit:
  "distinct (map presentation_id cur) \<Longrightarrow> distinct (map presentation_id fs) \<Longrightarrow>
   i < length cur \<Longrightarrow> d \<in> set fs \<Longrightarrow> presentation_id d = presentation_id (cur ! i) \<Longrightarrow>
   fold update_existing fs cur ! i =
     (if get_last_modified d > get_last_modified (cur ! i) then d else cur ! i)"
proof (induction fs arbitrary: cur)
  case Nil
  then show ?case by simp
next
  case (Cons f fs)
  have dc: "distinct (map presentation_id (update_existing f cur))"
    using Cons.prems(1) by (simp only: update_existing_ids)
  have len: "i < length (update_existing f cur)"
    using Cons.prems(3) by (simp add: update_existing_length)
  show ?case
  proof (cases "d = f")
    case True
    have hit: "update_existing f cur ! i =
        (if get_last_modified f > get_last_modified (cur ! i) then f else cur ! i)"
      using Cons.prems True by (intro update_existing_hit) auto
    then have "presentation_id (update_existing f cur ! i) = presentation_id f"
      using Cons.prems(5) True by auto
    moreover have "presentation_id f \<notin> presentation_id ` set fs"
      using Cons.prems(2) by auto
    ultimately have
      "fold update_existing fs (update_existing f cur) ! i = update_existing f cur ! i"
      using len by (intro fold_update_existing_miss) auto
    then show ?thesis using hit True by simp
  next
    case False
    then have din: "d \<in> set fs" using Cons.prems(4) by simp
    then have "presentation_id d \<in> presentation_id ` set fs" by simp
    then have "presentation_id f \<noteq> presentation_id d" using Cons.prems(2) by auto
    then have same: "update_existing f cur ! i = cur ! i"
      using Cons.prems by (intro update_existing_other) auto
    have "fold update_existing fs (update_existing f cur) ! i =
          (if get_last_modified d > get_last_modified (update_existing f cur ! i)
           then d else update_existing f cur ! i)"
      using dc Cons.prems(2) len din Cons.prems(5) same by (intro Cons.IH) auto
    then show ?thesis using same by simp
  qed
qed

lemma merged_slides:
  "slides (shared_data (merge_shared_state w)) =
   merge_slides (on_disk_slides (db w)) (slides (shared_data w))"
  by (cases "db w")
     (auto simp: merge_shared_state_def on_disk_slides_def load_shared_state_def
        path_exists_def falsy_def save_shared_state_def merge_slides_def Let_def
        split: option.splits)

lemma count_list_distinct:
  "distinct xs \<Longrightarrow> count_list xs x = (if x \<in> set xs then 1 else 0)"
  by (induction xs) auto

text \<open>
  C1. A session slide and a file slide with the same presentation id: after the merge the
  session's place holds the whole file record when the file's \<open>last_modified\<close> is strictly
  greater as a string, and the session record, unchanged, when it is equal or smaller.
\<close>

theorem merge_newer_disk_copy_wins:
  assumes "db w = Parsed fd" and "f_slides fd = Some disk"
    and "distinct (map presentation_id (slides (shared_data w)))"
    and "distinct (map presentation_id disk)"
    and "i < length (slides (shared_data w))"
    and "d \<in> set disk"
    and "presentation_id d = presentation_id (slides (shared_data w) ! i)"
  shows "slides (shared_data (merge_shared_state w)) ! i =
     (if get_last_modified d > get_last_modified (slides (shared_data w) ! i)
      then d else slides (shared_data w) ! i)"
proof -
  let ?mem = "slides (shared_data w)"
  let ?known = "filter (\<lambda>f. presentation_id f \<in> set (map presentation_id ?mem)) disk"
  have disk: "on_disk_slides (db w) = disk"
    using assms(1,2) by (simp add: on_disk_slides_def load_shared_state_def path_exists_def)
  have "?mem ! i \<in> set ?mem" using assms(5) by simp
  then have "presentation_id d \<in> set (map presentation_id ?mem)"
    using assms(7) by simp
  then have d: "d \<in> set ?known" using assms(6) by simp
  have dist: "distinct (map presentation_id ?known)"
    using assms(4) by (simp add: distinct_map_filter)
  have "slides (shared_data (merge_shared_state w)) ! i = fold update_existing ?known ?mem ! i"
    using assms(5)
    by (simp add: merged_slides disk merge_slides_split nth_append
        fold_update_existing_length)
  also have "\<dots> = (if get_last_modified d > get_last_modified (?mem ! i) then d else ?mem ! i)"
    using assms(3) dist assms(5) d assms(7) by (rule fold_update_existing_hit)
  finally show ?thesis .
qed

theorem merge_newer_disk_copy_wins_witness:
  "slides (shared_data (merge_shared_state example_world)) ! 0 = slide_A_disk
   \<and> slide_count (slides (shared_data (merge_shared_state example_world)) ! 0) = Some 7"
proof -
  have "slides (shared_data (merge_shared_state example_world)) ! 0 =
     (if get_last_modified slide_A_disk
           > get_last_modified (slides (shared_data example_world) ! 0)
      then slide_A_disk else slides (shared_data example_world) ! 0)"
    by (rule merge_newer_disk_copy_wins
          [of example_world example_file "[slide_A_disk, slide_B_disk]" 0 slide_A_disk])
       (simp_all add: example_world_def example_file_def slide_A_disk_def
          slide_A_session_def slide_B_disk_def)
  then show ?thesis
    by (simp add: example_world_def slide_A_disk_def slide_A_session_def
        get_last_modified_def)
qed

text \<open>
  C2. When the presentation ids are unique in the session's slides and in the file's
  slides, the merged list holds every id of either list exactly once, and no other id.
\<close>

theorem merge_ids_union_once:
  assumes "distinct (map presentation_id (slides (shared_data w)))"
    and "distinct (map presentation_id (on_disk_slides (db w)))"
  shows "count_list (map presentation_id (slides (shared_data (merge_shared_state w)))) p =
     (if p \<in> set (map presentation_id (slides (shared_data w)))
             \<union> set (map presentation_id (on_disk_slides (db w)))
      then 1 else 0)"
proof -
  let ?mem = "slides (shared_data w)"
  let ?disk = "on_disk_slides (db w)"
  let ?new = "filter (\<lambda>f. presentation_id f \<notin> set (map presentation_id ?mem)) ?disk"
  have ids: "map presentation_id (slides (shared_data (merge_shared_state w))) =
      map presentation_id ?mem @ map presentation_id ?new"
    by (simp add: merged_slides merge_slides_split fold_update_existing_ids)
  have "distinct (map presentation_id ?new)"
    using assms(2) by (simp add: distinct_map_filter)
  moreover have "set (map presentation_id ?mem) \<inter> set (map presentation_id ?new) = {}"
    by (auto simp: image_iff)
  ultimately have "distinct (map presentation_id ?mem @ map presentation_id ?new)"
    using assms(1) by (simp only: distinct_append simp_thms)
  moreover have "set (map presentation_id ?mem @ map presentation_id ?new) =
      set (map presentation_id ?mem) \<union> set (map presentation_id ?disk)"
    by auto
  ultimately show ?thesis
    unfolding ids by (simp only: count_list_distinct)
qed

theorem merge_ids_union_once_witness:
  "count_list (map presentation_id (slides (shared_data (merge_shared_state example_world)))) ''A'' = 1
   \<and> count_list (map presentation_id (slides (shared_data (merge_shared_state example_world)))) ''B'' = 1
   \<and> count_list (map presentation_id (slides (shared_data (merge_shared_state example_world)))) ''C'' = 0"
proof -
  have m: "distinct (map presentation_id (slides (shared_data example_world)))"
    by (simp add: example_world_def)
  have f: "distinct (map presentation_id (on_disk_slides (db example_world)))"
    by (simp add: example_world_def example_file_def on_disk_slides_def
        load_shared_state_def path_exists_def slide_A_disk_def slide_A_session_def
        slide_B_disk_def)
  have s: "set (map presentation_id (slides (shared_data example_world)))
        \<union> set (map presentation_id (on_disk_slides (db example_world))) = {''A'', ''B''}"
    by (auto simp: example_world_def example_file_def on_disk_slides_def
        load_shared_state_def path_exists_def slide_A_disk_def slide_A_session_def
        slide_B_disk_def)
  show ?thesis
    using merge_ids_union_once[OF m f, of "''A''"] merge_ids_union_once[OF m f, of "''B''"]
      merge_ids_union_once[OF m f, of "''C''"]
    unfolding s by simp
qed


section \<open>Every merge that reads a document saves\<close>

lemma save_shared_data [simp]: "shared_data (save_shared_state w) = shared_data w"
  by (simp add: save_shared_state_def)

text \<open>
  C4 (amended). The merge ends with a save of the merged state exactly when the backing
  file loads to a non-empty document; then, if the file can be written, the file holds
  the merged state. When the file is absent, unreadable, malformed or an empty document,
  the merge returns at once: the state and the file are left as they were.
\<close>

theorem merge_saves_iff_file_loads:
  "(\<not> falsy (load_shared_state (db w)) \<longrightarrow>
      merge_shared_state w =
        save_shared_state (w\<lparr>shared_data := shared_data (merge_shared_state w)\<rparr>)
      \<and> (writable w \<longrightarrow>
           db (merge_shared_state w) = Parsed (dump (shared_data (merge_shared_state w)))))
   \<and> (falsy (load_shared_state (db w)) \<longrightarrow> merge_shared_state w = w)"
proof -
  have a: "falsy (load_shared_state (db w)) \<Longrightarrow> merge_shared_state w = w"
    by (simp add: merge_shared_state_def)
  have b: "merge_shared_state w =
        save_shared_state (w\<lparr>shared_data := shared_data (merge_shared_state w)\<rparr>)"
    if "\<not> falsy (load_shared_state (db w))"
    using that by (auto simp: merge_shared_state_def Let_def falsy_def split: option.splits)
  have c: "db (merge_shared_state w) = Parsed (dump (shared_data (merge_shared_state w)))"
    if "\<not> falsy (load_shared_state (db w))" "writable w"
  proof -
    have "db (merge_shared_state w) =
        db (save_shared_state (w\<lparr>shared_data := shared_data (merge_shared_state w)\<rparr>))"
      using b[OF that(1)] by simp
    then show ?thesis using that(2) by (simp add: save_shared_state_def)
  qed
  show ?thesis using a b c by blast
qed

theorem merge_saves_iff_file_loads_witness:
  "db (merge_shared_state example_world) =
     Parsed (dump (shared_data (merge_shared_state example_world)))
   \<and> db (merge_shared_state version_world) =
     Parsed (dump (shared_data (merge_shared_state version_world)))
   \<and> db (merge_shared_state version_world) \<noteq> db version_world
   \<and> merge_shared_state absent_world = absent_world"
proof -
  have l: "\<not> falsy (load_shared_state (db example_world))"
    by (simp add: example_world_def example_file_def load_shared_state_def path_exists_def
        falsy_def)
  have wr: "writable example_world" by (simp add: example_world_def)
  have f: "falsy (load_shared_state (db absent_world))"
    by (simp add: absent_world_def load_shared_state_def path_exists_def falsy_def)
  have lv: "\<not> falsy (load_shared_state (db version_world))"
    by (simp add: version_world_def load_shared_state_def path_exists_def falsy_def)
  have wv: "writable version_world" by (simp add: version_world_def example_world_def)
  have "Parsed (dump sd) \<noteq> db version_world" for sd
    by (simp add: version_world_def dump_def)
  then show ?thesis
    using merge_saves_iff_file_loads[of example_world] merge_saves_iff_file_loads[of absent_world]
      merge_saves_iff_file_loads[of version_world] l wr f lv wv by metis
qed

text \<open>With no backing file the merge writes nothing, although the file could be written.\<close>

theorem merge_absent_file_counterexample:
  "writable absent_world
   \<and> db (merge_shared_state absent_world) = Absent
   \<and> db (merge_shared_state absent_world) \<noteq>
       Parsed (dump (shared_data (merge_shared_state absent_world)))"
  by (simp add: absent_world_def example_world_def merge_shared_state_def
      load_shared_state_def path_exists_def falsy_def)

section \<open>Registration\<close>

lemma dict_set_new: "\<not> dict_contains d k \<Longrightarrow> dict_set d k v = d @ [(k, v)]"
  by (induction d) (auto simp: dict_contains_def)

lemma log_activity_shared_data:
  "shared_data (log_activity act usr det w) =
   (shared_data w)\<lparr>activities := activities (shared_data w) @
      [\<lparr>timestamp = clock w (ticks w), user = usr, action = act, details = det\<rparr>]\<rparr>"
  by (simp add: log_activity_def now_def Let_def)

text \<open>
  C6 (amended). Registration checks the username first, then the confirmation, then the
  length: an existing username gives DuplicateUser; a new username with a differing
  confirmation gives PasswordMismatch; a new username with a matching confirmation and
  fewer than six characters gives WeakPassword; in these three cases the state is
  unchanged. Otherwise the user is stored with role member and the hash of the password,
  and a REGISTER activity is appended.
\<close>

theorem register_handler_cases:
  "(dict_contains (users (shared_data w)) u \<longrightarrow>
      register_handler H u p c w = (w, DuplicateUser))
   \<and> (\<not> dict_contains (users (shared_data w)) u \<and> p \<noteq> c \<longrightarrow>
      register_handler H u p c w = (w, PasswordMismatch))
   \<and> (\<not> dict_contains (users (shared_data w)) u \<and> p = c \<and> length p < 6 \<longrightarrow>
      register_handler H u p c w = (w, WeakPassword))
   \<and> (\<not> dict_contains (users (shared_data w)) u \<and> p = c \<and> 6 \<le> length p \<longrightarrow>
      users (shared_data (fst (register_handler H u p c w))) =
        users (shared_data w) @
          [(u, \<lparr>password = H p, role = Some ''member'', last_login = None\<rparr>)]
      \<and> slides (shared_data (fst (register_handler H u p c w))) = slides (shared_data w)
      \<and> activities (shared_data (fst (register_handler H u p c w))) =
        activities (shared_data w) @
          [\<lparr>timestamp = clock w (ticks w), user = u, action = ''REGISTER'',
            details = ''New user registered''\<rparr>]
      \<and> snd (register_handler H u p c w) = Success ''Registration successful! Please login.'')"
proof (intro conjI impI)
  assume "dict_contains (users (shared_data w)) u"
  then show "register_handler H u p c w = (w, DuplicateUser)"
    by (simp add: register_handler_def)
next
  assume "\<not> dict_contains (users (shared_data w)) u \<and> p \<noteq> c"
  then show "register_handler H u p c w = (w, PasswordMismatch)"
    by (simp add: register_handler_def)
next
  assume "\<not> dict_contains (users (shared_data w)) u \<and> p = c \<and> length p < 6"
  then show "register_handler H u p c w = (w, WeakPassword)"
    by (auto simp: register_handler_def)
next
  assume a: "\<not> dict_contains (users (shared_data w)) u \<and> p = c \<and> 6 \<le> length p"
  then have r: "register_handler H u p c w =
      (log_activity ''REGISTER'' u ''New user registered''
         (save_shared_state (w\<lparr>shared_data := (shared_data w)\<lparr>users := users (shared_data w) @
            [(u, \<lparr>password = H p, role = Some ''member'', last_login = None\<rparr>)]\<rparr>\<rparr>)),
       Success ''Registration successful! Please login.'')"
    by (auto simp: register_handler_def Let_def dict_set_new)
  have t: "clock (save_shared_state x) = clock x" "ticks (save_shared_state x) = ticks x" for x
    by (simp_all add: save_shared_state_def)
  show "users (shared_data (fst (register_handler H u p c w))) =
        users (shared_data w) @
          [(u, \<lparr>password = H p, role = Some ''member'', last_login = None\<rparr>)]"
    by (simp add: r log_activity_shared_data)
  show "slides (shared_data (fst (register_handler H u p c w))) = slides (shared_data w)"
    by (simp add: r log_activity_shared_data)
  show "activities (shared_data (fst (register_handler H u p c w))) =
        activities (shared_data w) @
          [\<lparr>timestamp = clock w (ticks w), user = u, action = ''REGISTER'',
            details = ''New user registered''\<rparr>]"
    by (simp add: r log_activity_shared_data t)
  show "snd (register_handler H u p c w) = Success ''Registration successful! Please login.''"
    by (simp add: r)
qed

theorem register_handler_cases_witness:
  "register_handler toy_hash ''admin'' ''secret1'' ''secret1'' admin_world
     = (admin_world, DuplicateUser)
   \<and> register_handler toy_hash ''carol'' ''secret1'' ''secret2'' admin_world
     = (admin_world, PasswordMismatch)
   \<and> register_handler toy_hash ''carol'' ''abc'' ''abc'' admin_world
     = (admin_world, WeakPassword)
   \<and> map fst (users (shared_data (fst
        (register_handler toy_hash ''carol'' ''secret1'' ''secret1'' admin_world))))
     = [''admin'', ''carol'']
   \<and> map action (activities (shared_data (fst
        (register_handler toy_hash ''carol'' ''secret1'' ''secret1'' admin_world))))
     = [''REGISTER'']"
proof -
  have a: "dict_contains (users (shared_data admin_world)) ''admin''"
    by (simp add: admin_world_def example_world_def default_users_def dict_contains_def)
  have c: "\<not> dict_contains (users (shared_data admin_world)) ''carol''"
    by (simp add: admin_world_def example_world_def default_users_def dict_contains_def)
  have u: "map fst (users (shared_data admin_world)) = [''admin'']"
    "activities (shared_data admin_world) = []"
    by (simp_all add: admin_world_def example_world_def default_users_def)
  show ?thesis
    using register_handler_cases[of admin_world "''admin''" toy_hash "''secret1''" "''secret1''"]
      register_handler_cases[of admin_world "''carol''" toy_hash "''secret1''" "''secret2''"]
      register_handler_cases[of admin_world "''carol''" toy_hash "''abc''" "''abc''"]
      register_handler_cases[of admin_world "''carol''" toy_hash "''secret1''" "''secret1''"]
      a c u by simp
qed

text \<open>
  A new username with the short password abc and the confirmation abd: the handler
  reports the mismatch, not the weak password.
\<close>

theorem register_short_mismatched_counterexample:
  "\<not> dict_contains (users (shared_data admin_world)) ''carol''
   \<and> length ''abc'' < 6
   \<and> register_handler toy_hash ''carol'' ''abc'' ''abd'' admin_world
       = (admin_world, PasswordMismatch)
   \<and> PasswordMismatch \<noteq> WeakPassword"
  by (simp add: register_handler_def admin_world_def example_world_def default_users_def
      dict_contains_def PasswordMismatch_def WeakPassword_def)


section \<open>The update check\<close>

lemma log_activity_fields:
  "clock (log_activity act usr det w) = clock w"
  "writable (log_activity act usr det w) = writable w"
  "ticks (log_activity act usr det w) = Suc (ticks w)"
  by (simp_all add: log_activity_def now_def Let_def save_shared_state_def)

lemma check_one_skip:
  "\<not> needs_update svc (slides (shared_data w) ! idx) \<Longrightarrow> check_one svc idx (w, b) = (w, b)"
  by (simp add: check_one_def needs_update_def Let_def split: option.splits)

lemma check_one_update:
  assumes "svc (presentation_id (slides (shared_data w) ! idx)) = Some fetched"
    and "d_slide_count fetched \<noteq> get_slide_count (slides (shared_data w) ! idx)"
  shows "snd (check_one svc idx (w, b)) = True"
    and "slides (shared_data (fst (check_one svc idx (w, b)))) =
      (slides (shared_data w))[idx := (slides (shared_data w) ! idx)
         \<lparr>slide_count := Some (d_slide_count fetched),
          last_modified := Some (clock w (ticks w)),
          title := Some (d_title fetched)\<rparr>]"
    and "users (shared_data (fst (check_one svc idx (w, b)))) = users (shared_data w)"
    and "\<exists>a. activities (shared_data (fst (check_one svc idx (w, b)))) =
           activities (shared_data w) @ [a]
         \<and> action a = ''SLIDE_UPDATE''
         \<and> user a = uploader (slides (shared_data w) ! idx)"
    and "clock (fst (check_one svc idx (w, b))) = clock w"
    and "writable (fst (check_one svc idx (w, b))) = writable w"
    and "ticks (fst (check_one svc idx (w, b))) = ticks w + 2"
  using assms
  by (simp_all add: check_one_def Let_def now_def log_activity_shared_data log_activity_fields)


lemma needs_update_iff:
  "needs_update svc s \<longleftrightarrow>
   (\<exists>fetched. svc (presentation_id s) = Some fetched \<and> d_slide_count fetched \<noteq> get_slide_count s)"
  by (simp add: needs_update_def split: option.splits)

lemma check_one_frame_all:
  "length (slides (shared_data (fst (check_one svc i st)))) =
     length (slides (shared_data (fst st)))
   \<and> users (shared_data (fst (check_one svc i st))) = users (shared_data (fst st))
   \<and> clock (fst (check_one svc i st)) = clock (fst st)
   \<and> writable (fst (check_one svc i st)) = writable (fst st)
   \<and> ticks (fst (check_one svc i st)) =
     ticks (fst st) + (if needs_update svc (slides (shared_data (fst st)) ! i) then 2 else 0)
   \<and> snd (check_one svc i st) =
     (snd st \<or> needs_update svc (slides (shared_data (fst st)) ! i))"
proof -
  obtain w b where st: "st = (w, b)" by (cases st)
  show ?thesis
  proof (cases "needs_update svc (slides (shared_data w) ! i)")
    case False
    then show ?thesis by (simp add: st check_one_skip)
  next
    case True
    then obtain fetched where f: "svc (presentation_id (slides (shared_data w) ! i)) = Some fetched"
      "d_slide_count fetched \<noteq> get_slide_count (slides (shared_data w) ! i)"
      by (auto simp: needs_update_iff)
    note upd = check_one_update[where svc=svc and w=w and idx=i and fetched=fetched and b=b, OF f]
    show ?thesis using True by (simp add: st upd)
  qed
qed

lemma check_one_frame:
  "length (slides (shared_data (fst (check_one svc i st)))) =
     length (slides (shared_data (fst st)))"
  "users (shared_data (fst (check_one svc i st))) = users (shared_data (fst st))"
  "clock (fst (check_one svc i st)) = clock (fst st)"
  "writable (fst (check_one svc i st)) = writable (fst st)"
  "ticks (fst (check_one svc i st)) =
     ticks (fst st) + (if needs_update svc (slides (shared_data (fst st)) ! i) then 2 else 0)"
  "snd (check_one svc i st) =
     (snd st \<or> needs_update svc (slides (shared_data (fst st)) ! i))"
  using check_one_frame_all[of svc i st] by blast+

lemma check_one_elsewhere:
  "j \<noteq> i \<Longrightarrow>
   slides (shared_data (fst (check_one svc i st))) ! j = slides (shared_data (fst st)) ! j"
proof -
  assume ji: "j \<noteq> i"
  obtain w b where st: "st = (w, b)" by (cases st)
  show ?thesis
  proof (cases "needs_update svc (slides (shared_data w) ! i)")
    case False
    then show ?thesis by (simp add: st check_one_skip)
  next
    case True
    then obtain fetched where f: "svc (presentation_id (slides (shared_data w) ! i)) = Some fetched"
      "d_slide_count fetched \<noteq> get_slide_count (slides (shared_data w) ! i)"
      by (auto simp: needs_update_iff)
    note upd = check_one_update[where svc=svc and w=w and idx=i and fetched=fetched and b=b, OF f]
    show ?thesis using ji by (simp add: st upd(2))
  qed
qed

lemma check_one_activities:
  "\<exists>acts. activities (shared_data (fst (check_one svc i st))) =
            activities (shared_data (fst st)) @ acts
     \<and> map action acts =
         (if needs_update svc (slides (shared_data (fst st)) ! i) then [''SLIDE_UPDATE''] else [])
     \<and> map user acts =
         (if needs_update svc (slides (shared_data (fst st)) ! i)
          then [uploader (slides (shared_data (fst st)) ! i)] else [])"
proof -
  obtain w b where st: "st = (w, b)" by (cases st)
  show ?thesis
  proof (cases "needs_update svc (slides (shared_data w) ! i)")
    case False
    then show ?thesis by (simp add: st check_one_skip)
  next
    case True
    then obtain fetched where f: "svc (presentation_id (slides (shared_data w) ! i)) = Some fetched"
      "d_slide_count fetched \<noteq> get_slide_count (slides (shared_data w) ! i)"
      by (auto simp: needs_update_iff)
    note upd = check_one_update[where svc=svc and w=w and idx=i and fetched=fetched and b=b, OF f]
    from upd(4) obtain a where
      "activities (shared_data (fst (check_one svc i (w, b)))) = activities (shared_data w) @ [a]"
      "action a = ''SLIDE_UPDATE''" "user a = uploader (slides (shared_data w) ! i)"
      by blast
    then show ?thesis using True
      by (intro exI[of _ "[a]"]) (simp add: st)
  qed
qed

section \<open>The loop\<close>

lemma check_loop_frame:
  "length (slides (shared_data (fst (fold (check_one svc) js st)))) =
     length (slides (shared_data (fst st)))
   \<and> users (shared_data (fst (fold (check_one svc) js st))) = users (shared_data (fst st))
   \<and> clock (fst (fold (check_one svc) js st)) = clock (fst st)
   \<and> writable (fst (fold (check_one svc) js st)) = writable (fst st)
   \<and> ticks (fst st) \<le> ticks (fst (fold (check_one svc) js st))"
proof (induction js arbitrary: st)
  case Nil
  then show ?case by simp
next
  case (Cons j js)
  show ?case
    using Cons.IH[of "check_one svc j st"]
    by (simp add: check_one_frame)
qed

lemma check_loop_elsewhere:
  "j \<notin> set js \<Longrightarrow>
   slides (shared_data (fst (fold (check_one svc) js st))) ! j = slides (shared_data (fst st)) ! j"
proof (induction js arbitrary: st)
  case Nil
  then show ?case by simp
next
  case (Cons i js)
  then show ?case
    using Cons.IH[of "check_one svc i st"] by (simp add: check_one_elsewhere)
qed

lemma filter_cong_slides:
  assumes "\<forall>j\<in>set js. slides (shared_data w') ! j = slides (shared_data w) ! j"
  shows "filter (\<lambda>j. needs_update svc (slides (shared_data w') ! j)) js =
         filter (\<lambda>j. needs_update svc (slides (shared_data w) ! j)) js"
  using assms by (intro filter_cong) auto

lemma check_loop_activities:
  "distinct js \<Longrightarrow>
   \<exists>acts. activities (shared_data (fst (fold (check_one svc) js st))) =
            activities (shared_data (fst st)) @ acts
     \<and> map action acts =
         replicate (length (filter (\<lambda>j. needs_update svc (slides (shared_data (fst st)) ! j)) js))
           ''SLIDE_UPDATE''
     \<and> map user acts =
         map (\<lambda>j. uploader (slides (shared_data (fst st)) ! j))
           (filter (\<lambda>j. needs_update svc (slides (shared_data (fst st)) ! j)) js)"
proof (induction js arbitrary: st)
  case Nil
  then show ?case by simp
next
  case (Cons i js)
  let ?st1 = "check_one svc i st"
  have same: "\<forall>j\<in>set js. slides (shared_data (fst ?st1)) ! j = slides (shared_data (fst st)) ! j"
    using Cons.prems by (auto intro!: check_one_elsewhere)
  have flt: "filter (\<lambda>j. needs_update svc (slides (shared_data (fst ?st1)) ! j)) js =
         filter (\<lambda>j. needs_update svc (slides (shared_data (fst st)) ! j)) js"
    using same by (rule filter_cong_slides)
  have mp: "map (\<lambda>j. uploader (slides (shared_data (fst ?st1)) ! j))
              (filter (\<lambda>j. needs_update svc (slides (shared_data (fst st)) ! j)) js) =
            map (\<lambda>j. uploader (slides (shared_data (fst st)) ! j))
              (filter (\<lambda>j. needs_update svc (slides (shared_data (fst st)) ! j)) js)"
    using same by (intro map_cong) auto
  from check_one_activities[of svc i st] obtain a1 where a1:
    "activities (shared_data (fst ?st1)) = activities (shared_data (fst st)) @ a1"
    "map action a1 =
       (if needs_update svc (slides (shared_data (fst st)) ! i) then [''SLIDE_UPDATE''] else [])"
    "map user a1 =
       (if needs_update svc (slides (shared_data (fst st)) ! i)
        then [uploader (slides (shared_data (fst st)) ! i)] else [])"
    by blast
  from Cons.IH[of ?st1] Cons.prems obtain a2 where a2:
    "activities (shared_data (fst (fold (check_one svc) js ?st1))) =
       activities (shared_data (fst ?st1)) @ a2"
    "map action a2 =
       replicate (length (filter (\<lambda>j. needs_update svc (slides (shared_data (fst ?st1)) ! j)) js))
         ''SLIDE_UPDATE''"
    "map user a2 =
       map (\<lambda>j. uploader (slides (shared_data (fst ?st1)) ! j))
         (filter (\<lambda>j. needs_update svc (slides (shared_data (fst ?st1)) ! j)) js)"
    by auto
  show ?case
    using a1 a2 by (intro exI[of _ "a1 @ a2"]) (simp add: flt mp)
qed

lemma check_loop_found:
  "distinct js \<Longrightarrow>
   snd (fold (check_one svc) js st) =
     (snd st \<or> filter (\<lambda>j. needs_update svc (slides (shared_data (fst st)) ! j)) js \<noteq> [])"
proof (induction js arbitrary: st)
  case Nil
  then show ?case by simp
next
  case (Cons i js)
  let ?st1 = "check_one svc i st"
  have same: "\<forall>j\<in>set js. slides (shared_data (fst ?st1)) ! j = slides (shared_data (fst st)) ! j"
    using Cons.prems by (auto intro!: check_one_elsewhere)
  have flt: "filter (\<lambda>j. needs_update svc (slides (shared_data (fst ?st1)) ! j)) js =
         filter (\<lambda>j. needs_update svc (slides (shared_data (fst st)) ! j)) js"
    using same by (rule filter_cong_slides)
  show ?case
    using Cons.IH[of ?st1] Cons.prems by (simp add: flt check_one_frame)
qed


lemma upt_split_at: "i < n \<Longrightarrow> [0..<n] = [0..<i] @ i # [Suc i..<n]"
  using upt_add_eq_append[of 0 i "n - i"] upt_conv_Cons[of i n] by simp

lemma check_loop_at:
  assumes "i < length (slides (shared_data w))"
  shows "(\<not> needs_update svc (slides (shared_data w) ! i) \<longrightarrow>
      slides (shared_data (fst (fold (check_one svc) [0..<length (slides (shared_data w))] (w, b)))) ! i
        = slides (shared_data w) ! i)
    \<and> (\<forall>fetched. svc (presentation_id (slides (shared_data w) ! i)) = Some fetched
          \<and> d_slide_count fetched \<noteq> get_slide_count (slides (shared_data w) ! i) \<longrightarrow>
        (\<exists>k. ticks w \<le> k
           \<and> k < ticks (fst (fold (check_one svc) [0..<length (slides (shared_data w))] (w, b)))
           \<and> slides (shared_data (fst (fold (check_one svc)
                 [0..<length (slides (shared_data w))] (w, b)))) ! i
               = (slides (shared_data w) ! i)
                   \<lparr>slide_count := Some (d_slide_count fetched),
                    last_modified := Some (clock w k),
                    title := Some (d_title fetched)\<rparr>))"
proof -
  let ?ss = "slides (shared_data w)"
  let ?n = "length ?ss"
  let ?sti = "fold (check_one svc) [0..<i] (w, b)"
  let ?stj = "check_one svc i ?sti"
  let ?r = "fold (check_one svc) [0..<?n] (w, b)"
  obtain wi bi where sti: "?sti = (wi, bi)" by (cases ?sti)
  have r: "?r = fold (check_one svc) [Suc i..<?n] ?stj"
    using upt_split_at[OF assms] by simp
  have fr: "length (slides (shared_data wi)) = ?n" "clock wi = clock w" "ticks w \<le> ticks wi"
    using check_loop_frame[of svc "[0..<i]" "(w, b)"] by (simp_all add: sti)
  have at_i: "slides (shared_data wi) ! i = ?ss ! i"
    using check_loop_elsewhere[of i "[0..<i]" svc "(w, b)"] by (simp add: sti)
  have after: "slides (shared_data (fst ?r)) ! i = slides (shared_data (fst ?stj)) ! i"
    unfolding r by (rule check_loop_elsewhere) simp
  have later: "ticks (fst ?stj) \<le> ticks (fst ?r)"
    unfolding r using check_loop_frame[of svc "[Suc i..<?n]" ?stj] by simp
  have skip: "slides (shared_data (fst ?r)) ! i = ?ss ! i"
    if "\<not> needs_update svc (?ss ! i)"
  proof -
    have "?stj = (wi, bi)" using that at_i by (simp add: sti check_one_skip)
    then show ?thesis using after at_i by simp
  qed
  have upd: "\<exists>k. ticks w \<le> k \<and> k < ticks (fst ?r)
           \<and> slides (shared_data (fst ?r)) ! i
               = (?ss ! i)\<lparr>slide_count := Some (d_slide_count fetched),
                    last_modified := Some (clock w k),
                    title := Some (d_title fetched)\<rparr>"
    if f: "svc (presentation_id (?ss ! i)) = Some fetched"
      "d_slide_count fetched \<noteq> get_slide_count (?ss ! i)" for fetched
  proof -
    have f': "svc (presentation_id (slides (shared_data wi) ! i)) = Some fetched"
      "d_slide_count fetched \<noteq> get_slide_count (slides (shared_data wi) ! i)"
      using f at_i by simp_all
    note u = check_one_update[where svc=svc and w=wi and idx=i and fetched=fetched and b=bi, OF f']
    have "slides (shared_data (fst ?stj)) ! i =
        (?ss ! i)\<lparr>slide_count := Some (d_slide_count fetched),
                    last_modified := Some (clock w (ticks wi)),
                    title := Some (d_title fetched)\<rparr>"
      using assms fr at_i by (simp add: sti u(2))
    moreover have "ticks wi < ticks (fst ?r)"
      using later by (simp add: sti u(7))
    ultimately show ?thesis using fr(3) after by (intro exI[of _ "ticks wi"]) simp
  qed
  show ?thesis using skip upd by blast
qed

lemma filter_nth_upt:
  "map (\<lambda>j. f (xs ! j)) (filter (\<lambda>j. P (xs ! j)) [0..<length xs]) = map f (filter P xs)"
proof -
  have "filter P xs = filter P (map (nth xs) [0..<length xs])" by (simp add: map_nth)
  also have "\<dots> = map (nth xs) (filter (P \<circ> nth xs) [0..<length xs])" by (rule filter_map)
  finally show ?thesis by (simp add: comp_def)
qed

lemma length_filter_nth_upt:
  "length (filter (\<lambda>j. P (xs ! j)) [0..<length xs]) = length (filter P xs)"
  using filter_nth_upt[of id xs P] by (metis length_map)

lemma updated_le_not_failed:
  "length (filter (needs_update svc) ss) + length (filter (fetch_fails svc) ss) \<le> length ss"
  by (induction ss) (auto simp: needs_update_def fetch_fails_def)

lemma merge_clock:
  "clock (merge_shared_state w) = clock w" "ticks (merge_shared_state w) = ticks w"
  by (auto simp: merge_shared_state_def save_shared_state_def Let_def split: option.splits)

lemma check_for_updates_unfold:
  "check_for_updates (Some svc) w =
     (let r = fold (check_one svc)
                [0..<length (slides (shared_data (merge_shared_state w)))]
                (merge_shared_state w, False)
      in (if snd r then save_shared_state (fst r) else fst r, snd r))"
  by (simp add: check_for_updates_def refresh_shared_state_def Let_def split: prod.splits)

lemma check_for_updates_result:
  "shared_data (fst (check_for_updates (Some svc) w)) =
     shared_data (fst (fold (check_one svc)
                [0..<length (slides (shared_data (merge_shared_state w)))]
                (merge_shared_state w, False)))"
  "ticks (fst (check_for_updates (Some svc) w)) =
     ticks (fst (fold (check_one svc)
                [0..<length (slides (shared_data (merge_shared_state w)))]
                (merge_shared_state w, False)))"
  "snd (check_for_updates (Some svc) w) =
     snd (fold (check_one svc)
                [0..<length (slides (shared_data (merge_shared_state w)))]
                (merge_shared_state w, False))"
  by (simp_all add: check_for_updates_unfold Let_def save_shared_state_def)


lemma example_merged:
  "slides (shared_data (merge_shared_state example_world)) = [slide_A_disk, slide_B_disk]"
  "activities (shared_data (merge_shared_state example_world)) = []"
  by (simp_all add: merge_shared_state_def load_shared_state_def path_exists_def falsy_def
      example_world_def example_file_def merge_slides_def slide_A_disk_def slide_A_session_def
      slide_B_disk_def get_last_modified_def merge_activities_def Let_def)

lemma example_service_needs:
  "needs_update example_service slide_A_disk"
  "\<not> needs_update example_service slide_B_disk"
  "fetch_fails example_service slide_B_disk"
  by (simp_all add: needs_update_def fetch_fails_def example_service_def slide_A_disk_def
      slide_A_session_def slide_B_disk_def get_slide_count_def)

text \<open>
  C7. The update check with a service returns a result for every state and every fetch
  function. Over the N records of the refreshed list it keeps the list's length, leaves
  every record whose fetch fails or whose fetched count equals the stored one as it was,
  changes exactly the records whose fetch succeeds with a different count (so at most N
  minus the K failing ones), and appends one SLIDE_UPDATE activity, under the record's
  uploader, for each changed record, in list order.
\<close>

theorem check_for_updates_partial_failure:
  assumes "ss = slides (shared_data (merge_shared_state w))"
    and "r = check_for_updates (Some svc) w"
  shows "length (slides (shared_data (fst r))) = length ss
    \<and> (\<forall>i<length ss.
          (fetch_fails svc (ss ! i) \<longrightarrow> slides (shared_data (fst r)) ! i = ss ! i)
        \<and> (\<not> needs_update svc (ss ! i) \<longrightarrow> slides (shared_data (fst r)) ! i = ss ! i)
        \<and> (needs_update svc (ss ! i) \<longrightarrow>
              slides (shared_data (fst r)) ! i \<noteq> ss ! i
            \<and> (\<forall>fetched. svc (presentation_id (ss ! i)) = Some fetched \<longrightarrow>
                  slide_count (slides (shared_data (fst r)) ! i) = Some (d_slide_count fetched))))
    \<and> (\<exists>acts. activities (shared_data (fst r)) =
                 activities (shared_data (merge_shared_state w)) @ acts
          \<and> map action acts = replicate (length (filter (needs_update svc) ss)) ''SLIDE_UPDATE''
          \<and> map user acts = map uploader (filter (needs_update svc) ss))
    \<and> length (filter (needs_update svc) ss) \<le> length ss - length (filter (fetch_fails svc) ss)
    \<and> snd r = (filter (needs_update svc) ss \<noteq> [])"
proof -
  let ?w1 = "merge_shared_state w"
  let ?loop = "fold (check_one svc) [0..<length ss] (?w1, False)"
  have sd: "shared_data (fst r) = shared_data (fst ?loop)" and found: "snd r = snd ?loop"
    using assms by (simp_all add: check_for_updates_result)
  have ss: "slides (shared_data ?w1) = ss" using assms(1) by simp
  have len: "length (slides (shared_data (fst r))) = length ss"
    using check_loop_frame[of svc "[0..<length ss]" "(?w1, False)"] by (simp add: sd ss)
  have each: "(fetch_fails svc (ss ! i) \<longrightarrow> slides (shared_data (fst r)) ! i = ss ! i)
        \<and> (\<not> needs_update svc (ss ! i) \<longrightarrow> slides (shared_data (fst r)) ! i = ss ! i)
        \<and> (needs_update svc (ss ! i) \<longrightarrow>
              slides (shared_data (fst r)) ! i \<noteq> ss ! i
            \<and> (\<forall>fetched. svc (presentation_id (ss ! i)) = Some fetched \<longrightarrow>
                  slide_count (slides (shared_data (fst r)) ! i) = Some (d_slide_count fetched)))"
    if i: "i < length ss" for i
  proof -
    have at: "(\<not> needs_update svc (ss ! i) \<longrightarrow> slides (shared_data (fst r)) ! i = ss ! i)
      \<and> (\<forall>fetched. svc (presentation_id (ss ! i)) = Some fetched
            \<and> d_slide_count fetched \<noteq> get_slide_count (ss ! i) \<longrightarrow>
          (\<exists>k. slides (shared_data (fst r)) ! i
               = (ss ! i)\<lparr>slide_count := Some (d_slide_count fetched),
                    last_modified := Some (clock ?w1 k),
                    title := Some (d_title fetched)\<rparr>))"
      using check_loop_at[of i ?w1 svc False] i by (simp add: sd ss) blast
    have fails: "fetch_fails svc (ss ! i) \<Longrightarrow> \<not> needs_update svc (ss ! i)"
      by (simp add: fetch_fails_def needs_update_def)
    have changed: "slides (shared_data (fst r)) ! i \<noteq> ss ! i
            \<and> (\<forall>fetched. svc (presentation_id (ss ! i)) = Some fetched \<longrightarrow>
                  slide_count (slides (shared_data (fst r)) ! i) = Some (d_slide_count fetched))"
      if n: "needs_update svc (ss ! i)"
    proof -
      from n obtain fetched where f: "svc (presentation_id (ss ! i)) = Some fetched"
        "d_slide_count fetched \<noteq> get_slide_count (ss ! i)"
        by (auto simp: needs_update_iff)
      with at obtain k where k: "slides (shared_data (fst r)) ! i
               = (ss ! i)\<lparr>slide_count := Some (d_slide_count fetched),
                    last_modified := Some (clock ?w1 k),
                    title := Some (d_title fetched)\<rparr>"
        by blast
      have "get_slide_count (slides (shared_data (fst r)) ! i) = d_slide_count fetched"
        by (simp add: k get_slide_count_def)
      then have "slides (shared_data (fst r)) ! i \<noteq> ss ! i" using f(2) by auto
      then show ?thesis using f(1) k by simp
    qed
    show ?thesis using at fails changed by blast
  qed
  have acts: "\<exists>acts. activities (shared_data (fst r)) =
                 activities (shared_data ?w1) @ acts
          \<and> map action acts = replicate (length (filter (needs_update svc) ss)) ''SLIDE_UPDATE''
          \<and> map user acts = map uploader (filter (needs_update svc) ss)"
    using check_loop_activities[of "[0..<length ss]" svc "(?w1, False)"]
    by (simp add: sd ss filter_nth_upt length_filter_nth_upt)
  have bound: "length (filter (needs_update svc) ss) \<le> length ss - length (filter (fetch_fails svc) ss)"
    using updated_le_not_failed[of svc ss] by simp
  have fnd: "snd r = (filter (needs_update svc) ss \<noteq> [])"
    using check_loop_found[of "[0..<length ss]" svc "(?w1, False)"]
      length_filter_nth_upt[of "needs_update svc" ss]
    by (simp add: found ss) (metis length_0_conv)
  show ?thesis using len each acts bound fnd by blast
qed


theorem check_for_updates_partial_failure_witness:
  "length (slides (shared_data (fst (check_for_updates (Some example_service) example_world)))) = 2
   \<and> slides (shared_data (fst (check_for_updates (Some example_service) example_world))) ! 1
       = slide_B_disk
   \<and> slide_count (slides (shared_data (fst (check_for_updates (Some example_service)
        example_world))) ! 0) = Some 9
   \<and> map action (activities (shared_data (fst (check_for_updates (Some example_service)
        example_world)))) = [''SLIDE_UPDATE'']
   \<and> snd (check_for_updates (Some example_service) example_world)"
proof -
  let ?r = "check_for_updates (Some example_service) example_world"
  let ?ss = "[slide_A_disk, slide_B_disk]"
  note t = check_for_updates_partial_failure[of ?ss example_world ?r example_service,
      OF example_merged(1)[symmetric] refl]
  have len: "length (slides (shared_data (fst ?r))) = 2" using t by simp
  have b: "slides (shared_data (fst ?r)) ! 1 = slide_B_disk"
    using t example_service_needs(2) by simp
  have a: "slide_count (slides (shared_data (fst ?r)) ! 0) = Some 9"
    using t example_service_needs(1)
    by (simp add: example_service_def slide_A_disk_def slide_A_session_def)
  have f: "filter (needs_update example_service) ?ss = [slide_A_disk]"
    using example_service_needs by simp
  have acts: "map action (activities (shared_data (fst ?r))) = [''SLIDE_UPDATE'']"
    using t unfolding f example_merged(2) by auto
  have fnd: "snd ?r" using t unfolding f by simp
  show ?thesis using len b a acts fnd by simp
qed

text \<open>
  C10. A record whose fetched slide count differs from the stored one gets the fetched
  count, the fetched title and, as \<open>last_modified\<close>, a reading of the clock taken during
  the call: the timestamp that the merge compares is bumped as well.
\<close>

theorem check_for_updates_refreshes_record:
  assumes "ss = slides (shared_data (merge_shared_state w))"
    and "r = check_for_updates (Some svc) w"
    and "i < length ss"
    and "svc (presentation_id (ss ! i)) = Some fetched"
    and "d_slide_count fetched \<noteq> get_slide_count (ss ! i)"
  shows "\<exists>k. ticks w \<le> k \<and> k < ticks (fst r)
     \<and> slides (shared_data (fst r)) ! i =
         (ss ! i)\<lparr>slide_count := Some (d_slide_count fetched),
                  last_modified := Some (clock w k),
                  title := Some (d_title fetched)\<rparr>
     \<and> get_last_modified (slides (shared_data (fst r)) ! i) = clock w k"
proof -
  let ?w1 = "merge_shared_state w"
  let ?loop = "fold (check_one svc) [0..<length ss] (?w1, False)"
  have sd: "shared_data (fst r) = shared_data (fst ?loop)" and tk: "ticks (fst r) = ticks (fst ?loop)"
    using assms(1,2) by (simp_all add: check_for_updates_result)
  have ss: "slides (shared_data ?w1) = ss" using assms(1) by simp
  from check_loop_at[of i ?w1 svc False] assms(3,4,5)
  obtain k where k: "ticks ?w1 \<le> k" "k < ticks (fst ?loop)"
    "slides (shared_data (fst ?loop)) ! i =
       (ss ! i)\<lparr>slide_count := Some (d_slide_count fetched),
                last_modified := Some (clock ?w1 k),
                title := Some (d_title fetched)\<rparr>"
    unfolding ss by blast
  show ?thesis
    using k by (intro exI[of _ k]) (simp add: sd tk merge_clock get_last_modified_def)
qed

theorem check_for_updates_refreshes_record_witness:
  "slides (shared_data (fst (check_for_updates (Some example_service) example_world))) ! 0 =
     slide_A_disk\<lparr>slide_count := Some 9, last_modified := Some ''2024-01-03 12:00:00'',
                  title := Some ''Deck v2''\<rparr>"
proof -
  let ?r = "check_for_updates (Some example_service) example_world"
  let ?ss = "[slide_A_disk, slide_B_disk]"
  have c: "clock example_world k = ''2024-01-03 12:00:00''" for k
    by (simp add: example_world_def)
  have "\<exists>k. ticks example_world \<le> k \<and> k < ticks (fst ?r)
     \<and> slides (shared_data (fst ?r)) ! 0 =
         (?ss ! 0)\<lparr>slide_count := Some (d_slide_count \<lparr>d_title = ''Deck v2'', d_slide_count = 9\<rparr>),
                  last_modified := Some (clock example_world k),
                  title := Some (d_title \<lparr>d_title = ''Deck v2'', d_slide_count = 9\<rparr>)\<rparr>
     \<and> get_last_modified (slides (shared_data (fst ?r)) ! 0) = clock example_world k"
    by (rule check_for_updates_refreshes_record[of ?ss example_world ?r example_service 0,
          OF example_merged(1)[symmetric] refl])
       (simp_all add: example_service_def slide_A_disk_def slide_A_session_def
          get_slide_count_def)
  then show ?thesis by (auto simp: c)
qed


section \<open>Report statistics\<close>






section \<open>The temporary file of the PDF builders\<close>

lemma pdf_success_removes_temp_file:
  "canvas_save (simple_pdf_statistics slides_list) slides_list = Some pdf_bytes \<Longrightarrow>
   create_simple_combined_pdf canvas_save temp_pdf_path slides_list files
     = (Some pdf_bytes, files - {temp_pdf_path})"
  "doc_build (image_pdf_statistics slides_list) slides_list = Some pdf_bytes \<Longrightarrow>
   create_image_combined_pdf (Some access_token) True doc_build temp_pdf_path slides_list files
     = (Some pdf_bytes, files - {temp_pdf_path})"
  by (simp_all add: create_simple_combined_pdf_def create_image_combined_pdf_def)

lemma pdf_without_credentials_acquires_nothing:
  "create_image_combined_pdf None services_available doc_build temp_pdf_path slides_list files
     = (None, files)"
  by (simp add: create_image_combined_pdf_def)

text \<open>
  C3. The temporary file should be deleted on every exit path. The builders unlink it
  only behind the successful read: when the document build raises, in either builder, or
  when the Google services are unavailable in the image builder, the function returns
  \<open>None\<close> and the file that it created is still there.
\<close>

theorem pdf_build_failure_leaves_temp_file:
  "create_simple_combined_pdf (\<lambda>statistics slides_list. None) ''/tmp/tmpk3x9.pdf'' [slide_A_session] {}
     = (None, {''/tmp/tmpk3x9.pdf''})
   \<and> create_image_combined_pdf (Some ''token'') True (\<lambda>statistics slides_list. None) ''/tmp/tmpk3x9.pdf''
       [slide_A_session] {}
     = (None, {''/tmp/tmpk3x9.pdf''})
   \<and> create_image_combined_pdf (Some ''token'') False
       (\<lambda>statistics slides_list. Some ''%PDF'')
       ''/tmp/tmpk3x9.pdf'' [slide_A_session] {}
     = (None, {''/tmp/tmpk3x9.pdf''})"
  by (simp add: create_simple_combined_pdf_def create_image_combined_pdf_def)

section \<open>The removal handlers\<close>

lemma pop_matching_absent:
  "pid \<notin> set (map presentation_id ss) \<Longrightarrow> pop_matching pid ss = None"
  by (induction ss) auto















end
